theory Spec2Isabelle
  imports Main "HOL-Library.Word" "HOL-Library.Sublist"
begin

unbundle bit_operations_syntax

section \<open>Validation service: data model\<close>

text \<open>
  The four SQLite tables of the server (database module). A table with a PRIMARY KEY
  and single-key access is a map from the key to the remaining columns; \<open>identity_map\<close>
  has two uniqueness constraints (student_id PRIMARY KEY, token UNIQUE) and is kept as
  its list of rows (student_id, token). Timestamps are milliseconds (\<open>Date.now()\<close>).
  The \<open>used\<close> column holds 0 (pending), 1 (granted) or 2 (denied).
\<close>

record enrollment =
  e_permissions :: "string option"
  e_created_at :: int
  e_expires_at :: int

record short_token =
  t_enrollment_token :: string
  t_created_at :: int
  t_expires_at :: int
  t_used :: int

record rate_limit =
  r_requests :: "int list"
  r_suspended_until :: int

record db =
  enrollments :: "string \<rightharpoonup> enrollment"
  identity_map :: "(string \<times> string) list"
  short_tokens :: "string \<rightharpoonup> short_token"
  rate_limits :: "string \<rightharpoonup> rate_limit"

definition SHORT_TOKEN_TTL_MS :: int where
  "SHORT_TOKEN_TTL_MS = 1 * 60 * 1000"

definition RSSI_THRESHOLD :: int where
  "RSSI_THRESHOLD = - 70"

definition DISTANCE_THRESHOLD :: int where
  "DISTANCE_THRESHOLD = 90"

definition WINDOW_MS :: int where
  "WINDOW_MS = 3 * 60 * 1000"

definition MAX_REQUESTS :: nat where
  "MAX_REQUESTS = 3"

text \<open>
  A string field of a JSON body is absent (\<open>None\<close>) or present. JavaScript's \<open>!x\<close> holds
  of an absent field and of the empty string.
\<close>

definition falsy :: "string option \<Rightarrow> bool" where
  "falsy x = (case x of None \<Rightarrow> True | Some s \<Rightarrow> s = [])"

text \<open>\<open>perms.includes(doorId)\<close>: \<open>doorId\<close> occurs in \<open>perms\<close> as a contiguous substring.\<close>

fun str_includes :: "string \<Rightarrow> string \<Rightarrow> bool" where
  "str_includes [] d = (d = [])"
| "str_includes (c # cs) d = (prefix d (c # cs) \<or> str_includes cs d)"

section \<open>POST /validate\<close>

datatype validate_response =
    VBadRequest string
  | VDenied string
  | VGranted

text \<open>\<open>UPDATE short_tokens SET used = ? WHERE token = ?\<close>\<close>

definition set_used :: "db \<Rightarrow> string \<Rightarrow> int \<Rightarrow> db" where
  "set_used st tok u =
     (case short_tokens st tok of
        None \<Rightarrow> st
      | Some row \<Rightarrow> st\<lparr>short_tokens := (short_tokens st)(tok \<mapsto> row\<lparr>t_used := u\<rparr>)\<rparr>)"

text \<open>\<open>DELETE FROM short_tokens WHERE token = ?\<close>\<close>

definition delete_short_token :: "db \<Rightarrow> string \<Rightarrow> db" where
  "delete_short_token st tok = st\<lparr>short_tokens := (short_tokens st)(tok := None)\<rparr>"

text \<open>
  The handler, run without interleaving. \<open>now\<close> is the value of \<open>nowMs()\<close>; \<open>rssi\<close> and
  \<open>distanceCm\<close> are the integers the door controller sends, \<open>None\<close> when the field is
  \<open>undefined\<close>.
\<close>

definition validate ::
  "db \<Rightarrow> int \<Rightarrow> string option \<Rightarrow> int option \<Rightarrow> int option \<Rightarrow> string option
   \<Rightarrow> db \<times> validate_response" where
  "validate st now token rssi distanceCm doorId =
    (if falsy token then (st, VBadRequest ''token required'')
     else if falsy doorId then (st, VBadRequest ''doorId required'')
     else
       (let tok = the token; door = the doorId in
        case short_tokens st tok of
          None \<Rightarrow> (st, VDenied ''unknown_or_expired'')
        | Some entry \<Rightarrow>
            if t_expires_at entry \<le> now
              then (delete_short_token st tok, VDenied ''expired'')
            else if t_used entry = 1 then (st, VDenied ''already_used'')
            else if t_used entry = 2 then (st, VDenied ''already_denied'')
            else
              (case enrollments st (t_enrollment_token entry) of
                 None \<Rightarrow> (set_used st tok 2, VDenied ''access_revoked'')
               | Some user \<Rightarrow>
                   (let perms = (case e_permissions user of None \<Rightarrow> [] | Some p \<Rightarrow> p);
                        canAccess = (perms = ''ALL'' \<or> str_includes perms door)
                    in if \<not> canAccess
                         then (set_used st tok 2, VDenied ''insufficient_permissions'')
                       else if (case rssi of None \<Rightarrow> False | Some r \<Rightarrow> r < RSSI_THRESHOLD)
                         then (set_used st tok 2, VDenied ''rssi_too_weak'')
                       else if (case distanceCm of None \<Rightarrow> False
                                | Some d \<Rightarrow> d > DISTANCE_THRESHOLD)
                         then (set_used st tok 2, VDenied ''distance_too_far'')
                       else (set_used st tok 1, VGranted)))))"

text \<open>
  The same handler as the event loop runs it. Every \<open>await\<close> of a database call hands
  control back to the event loop, so another request's handler may run between two
  database statements of this one. A task is the handler's continuation: a step performs
  the next database statement together with the synchronous code that follows it, up to
  the next \<open>await\<close> or the response.
\<close>

datatype stmt = Delete string | Update string int

datatype vtask =
    VStart "string option" "int option" "int option" "string option"
  | VHaveEntry string string "int option" "int option" short_token
  | VWrite stmt validate_response
  | VDone validate_response

fun dbRun :: "db \<Rightarrow> stmt \<Rightarrow> db" where
  "dbRun st (Delete tok) = delete_short_token st tok"
| "dbRun st (Update tok u) = set_used st tok u"

fun vstep :: "int \<Rightarrow> db \<Rightarrow> vtask \<Rightarrow> db \<times> vtask" where
  "vstep now st (VStart token rssi distanceCm doorId) =
     (if falsy token then (st, VDone (VBadRequest ''token required''))
      else if falsy doorId then (st, VDone (VBadRequest ''doorId required''))
      else
        (let tok = the token; door = the doorId in
         case short_tokens st tok of
           None \<Rightarrow> (st, VDone (VDenied ''unknown_or_expired''))
         | Some entry \<Rightarrow>
             if t_expires_at entry \<le> now
               then (st, VWrite (Delete tok) (VDenied ''expired''))
             else if t_used entry = 1 then (st, VDone (VDenied ''already_used''))
             else if t_used entry = 2 then (st, VDone (VDenied ''already_denied''))
             else (st, VHaveEntry tok door rssi distanceCm entry)))"
| "vstep now st (VHaveEntry tok door rssi distanceCm entry) =
     (case enrollments st (t_enrollment_token entry) of
        None \<Rightarrow> (st, VWrite (Update tok 2) (VDenied ''access_revoked''))
      | Some user \<Rightarrow>
          (let perms = (case e_permissions user of None \<Rightarrow> [] | Some p \<Rightarrow> p);
               canAccess = (perms = ''ALL'' \<or> str_includes perms door)
           in if \<not> canAccess
                then (st, VWrite (Update tok 2) (VDenied ''insufficient_permissions''))
              else if (case rssi of None \<Rightarrow> False | Some r \<Rightarrow> r < RSSI_THRESHOLD)
                then (st, VWrite (Update tok 2) (VDenied ''rssi_too_weak''))
              else if (case distanceCm of None \<Rightarrow> False | Some d \<Rightarrow> d > DISTANCE_THRESHOLD)
                then (st, VWrite (Update tok 2) (VDenied ''distance_too_far''))
              else (st, VWrite (Update tok 1) VGranted)))"
| "vstep now st (VWrite s resp) = (dbRun st s, VDone resp)"
| "vstep now st (VDone resp) = (st, VDone resp)"

text \<open>
  Two handlers in flight. The schedule says which one the event loop resumes next
  (\<open>True\<close>: the first); \<open>now\<close> does not advance during the run.
\<close>

fun run2 :: "int \<Rightarrow> db \<Rightarrow> vtask \<Rightarrow> vtask \<Rightarrow> bool list \<Rightarrow> db \<times> vtask \<times> vtask" where
  "run2 now st a b [] = (st, a, b)"
| "run2 now st a b (True # sched) = (case vstep now st a of (st', a') \<Rightarrow> run2 now st' a' b sched)"
| "run2 now st a b (False # sched) = (case vstep now st b of (st', b') \<Rightarrow> run2 now st' a b' sched)"

text \<open>A list of validate calls (time, rssi, distance, door) on one token, one after the other.\<close>

fun validate_seq ::
  "db \<Rightarrow> string \<Rightarrow> (int \<times> int option \<times> int option \<times> string option) list
   \<Rightarrow> db \<times> validate_response list" where
  "validate_seq st tok [] = (st, [])"
| "validate_seq st tok ((now, rssi, dist, door) # calls) =
     (case validate st now (Some tok) rssi dist door of
        (st', r) \<Rightarrow> (case validate_seq st' tok calls of (st'', rs) \<Rightarrow> (st'', r # rs)))"

text \<open>
  A token is consumed when no validate call can grant it any more: its row is gone, or
  its \<open>used\<close> flag is 1 or 2.
\<close>

definition consumed :: "db \<Rightarrow> string \<Rightarrow> bool" where
  "consumed st tok =
     (case short_tokens st tok of None \<Rightarrow> True | Some entry \<Rightarrow> t_used entry = 1 \<or> t_used entry = 2)"

section \<open>POST /request-token\<close>

datatype token_response =
    TBadRequest string
  | TForbidden string
  | TRateLimited int
  | TIssued string int
  | TInternalError

text \<open>
  \<open>tokenStr\<close> is the value \<open>genRandomToken()\<close> returns. The insert into \<open>short_tokens\<close>
  fails on its PRIMARY KEY when the token is already stored; the handler's \<open>catch\<close>
  answers 500, after the rate-limit row has been written.
\<close>

definition request_token :: "db \<Rightarrow> int \<Rightarrow> string \<Rightarrow> string option \<Rightarrow> db \<times> token_response" where
  "request_token st now tokenStr enrollmentToken =
    (if falsy enrollmentToken then (st, TBadRequest ''enrollmentToken required'')
     else
       (let etok = the enrollmentToken in
        case enrollments st etok of
          None \<Rightarrow> (st, TForbidden ''unknown enrollmentToken'')
        | Some user \<Rightarrow>
            if e_expires_at user < now then (st, TForbidden ''enrollment_expired'')
            else
              (let rateData = (case rate_limits st etok of
                                 None \<Rightarrow> \<lparr>r_requests = [], r_suspended_until = 0\<rparr>
                               | Some rateRow \<Rightarrow> rateRow)
               in if r_suspended_until rateData > now
                    then (st, TRateLimited (r_suspended_until rateData))
                  else
                    (let reqs = filter (\<lambda>ts. ts > now - WINDOW_MS) (r_requests rateData)
                     in if length reqs \<ge> MAX_REQUESTS
                          then (st\<lparr>rate_limits := (rate_limits st)(etok \<mapsto>
                                     \<lparr>r_requests = [], r_suspended_until = now + WINDOW_MS\<rparr>)\<rparr>,
                                TRateLimited (now + WINDOW_MS))
                        else
                          (let st1 = st\<lparr>rate_limits := (rate_limits st)(etok \<mapsto>
                                         \<lparr>r_requests = reqs @ [now], r_suspended_until = 0\<rparr>)\<rparr>;
                               expiresAt = now + SHORT_TOKEN_TTL_MS
                           in case short_tokens st1 tokenStr of
                                Some _ \<Rightarrow> (st1, TInternalError)
                              | None \<Rightarrow>
                                  (st1\<lparr>short_tokens := (short_tokens st1)(tokenStr \<mapsto>
                                        \<lparr>t_enrollment_token = etok, t_created_at = now,
                                         t_expires_at = expiresAt, t_used = 0\<rparr>)\<rparr>,
                                   TIssued tokenStr expiresAt))))))"

section \<open>Administration: POST /enroll, POST /revoke-enrollment\<close>

datatype admin_response = AOk | AError nat string

text \<open>
  \<open>secret\<close> is the server's \<open>ADMIN_SECRET\<close> (an environment variable, possibly unset).
  The two inserts are two statements, each committed on its own; a constraint violation
  (\<open>SQLITE_CONSTRAINT\<close>) of either is caught and answered 409. \<open>now\<close> stands for both
  calls of \<open>nowMs()\<close>.
\<close>

definition enroll ::
  "string option \<Rightarrow> db \<Rightarrow> int \<Rightarrow> string option \<Rightarrow> string option \<Rightarrow> string option
   \<Rightarrow> string option \<Rightarrow> int option \<Rightarrow> db \<times> admin_response" where
  "enroll secret st now enrollmentToken studentId permissions adminSecret expiresAt =
    (if adminSecret \<noteq> secret then (st, AError 403 ''unauthorized'')
     else if falsy enrollmentToken \<or> falsy studentId
       then (st, AError 400 ''enrollmentToken and studentID required'')
     else
       (let etok = the enrollmentToken; sid = the studentId;
            expiry = (case expiresAt of
                        None \<Rightarrow> now + 120 * 24 * 60 * 60 * 1000
                      | Some e \<Rightarrow> if e = 0 then now + 120 * 24 * 60 * 60 * 1000 else e);
            perms = (if falsy permissions then ''ALL'' else the permissions)
        in case enrollments st etok of
             Some _ \<Rightarrow> (st, AError 409 ''token or studentId already exists'')
           | None \<Rightarrow>
               (let st1 = st\<lparr>enrollments := (enrollments st)(etok \<mapsto>
                              \<lparr>e_permissions = Some perms, e_created_at = now,
                               e_expires_at = expiry\<rparr>)\<rparr>
                in if sid \<in> fst ` set (identity_map st1) \<or> etok \<in> snd ` set (identity_map st1)
                     then (st1, AError 409 ''token or studentId already exists'')
                   else (st1\<lparr>identity_map := identity_map st1 @ [(sid, etok)]\<rparr>, AOk))))"

definition revoke_enrollment ::
  "string option \<Rightarrow> db \<Rightarrow> string option \<Rightarrow> string option \<Rightarrow> db \<times> admin_response" where
  "revoke_enrollment secret st studentId adminSecret =
    (if adminSecret \<noteq> secret then (st, AError 403 ''unauthorized'')
     else if falsy studentId then (st, AError 400 ''studentId required'')
     else
       (let sid = the studentId in
        case map_of (identity_map st) sid of
          None \<Rightarrow> (st, AError 404 ''student_not_found'')
        | Some tok \<Rightarrow>
            (st\<lparr>enrollments := (enrollments st)(tok := None),
                identity_map := filter (\<lambda>row. fst row \<noteq> sid) (identity_map st)\<rparr>, AOk)))"

section \<open>GET /check-status and the token sweep\<close>

datatype status_response = SBadRequest string | SStatus string

definition check_status :: "db \<Rightarrow> string option \<Rightarrow> status_response" where
  "check_status st token =
    (if falsy token then SBadRequest ''token required''
     else
       (case short_tokens st (the token) of
          None \<Rightarrow> SStatus ''expired''
        | Some entry \<Rightarrow>
            if t_used entry = 1 then SStatus ''granted''
            else if t_used entry = 2 then SStatus ''denied''
            else SStatus ''pending''))"

text \<open>\<open>DELETE FROM short_tokens WHERE expires_at <= ?\<close>\<close>

definition cleanupExpiredTokens :: "db \<Rightarrow> int \<Rightarrow> db" where
  "cleanupExpiredTokens st time =
     st\<lparr>short_tokens := (\<lambda>tok. case short_tokens st tok of
                                  None \<Rightarrow> None
                                | Some entry \<Rightarrow> if t_expires_at entry \<le> time then None else Some entry)\<rparr>"

section \<open>Door controller: the rangefinder frame decoder\<close>

text \<open>
  \<open>Serial2\<close> is a FIFO of received bytes. \<open>Serial2.read()\<close> takes the first byte,
  \<open>Serial2.peek()\<close> looks at it, \<open>Serial2.available()\<close> is the length. The read loop
  runs while \<open>millis() - start\<close> is below the time budget: the schedule \<open>arrivals\<close> has
  one entry for every pass the budget allows, holding the bytes the sensor delivered
  since the pass before (the first entry also holds what arrived during the settle
  \<open>delay\<close>). When the schedule is used up the budget has elapsed. A pass only touches
  bytes that were available when it began, so bytes arriving during a pass count for the
  next one.
\<close>

type_synonym byte = "8 word"

definition LIDAR_TIMEOUT :: int where
  "LIDAR_TIMEOUT = 999"

text \<open>\<open>while (Serial2.available() > 0) Serial2.read();\<close>\<close>

fun flush :: "byte list \<Rightarrow> byte list" where
  "flush [] = []"
| "flush (b # bs) = flush bs"

text \<open>
  One pass of the loop body of the controller that takes the token from a BLE
  advertisement: the value returned, if the pass returns, and the FIFO left.
\<close>

definition read_packet_ble :: "byte list \<Rightarrow> int option \<times> byte list" where
  "read_packet_ble buf =
    (if length buf \<ge> 9 then
       (if buf ! 0 = 0x59 then
          (if buf ! 1 = 0x59 then
             (let distL = uint (buf ! 2); distH = uint (buf ! 3);
                  strL = uint (buf ! 4); strH = uint (buf ! 5);
                  tempL = uint (buf ! 6); tempH = uint (buf ! 7);
                  checksum = uint (buf ! 8);
                  sum = 0x59 + 0x59 + distL + distH + strL + strH + tempL + tempH
              in if sum AND 0xFF = checksum then
                   (let newDist = distL + distH * 256
                    in if newDist > 0 \<and> newDist < 1200 then (Some newDist, drop 9 buf)
                       else (None, drop 9 buf))
                 else (None, drop 9 buf))
           else (None, drop 1 buf))
        else (None, drop 1 buf))
     else (None, buf))"

text \<open>
  One pass of the loop body of the controller that takes the token over HTTP
  (firmware/main.ino): the five bytes after the distance are consumed unread.
\<close>

definition read_packet :: "byte list \<Rightarrow> int option \<times> byte list" where
  "read_packet buf =
    (if length buf \<ge> 9 then
       (if buf ! 0 = 0x59 then
          (if buf ! 1 = 0x59 then
             (let distL = uint (buf ! 2); distH = uint (buf ! 3);
                  dist = distL + distH * 256
              in if dist > 0 \<and> dist < 1200 then (Some dist, drop 9 buf)
                 else (None, drop 9 buf))
           else (None, drop 1 buf))
        else (None, drop 1 buf))
     else (None, buf))"

fun read_loop ::
  "(byte list \<Rightarrow> int option \<times> byte list) \<Rightarrow> byte list \<Rightarrow> byte list list \<Rightarrow> int" where
  "read_loop body buf [] = LIDAR_TIMEOUT"
| "read_loop body buf (arr # arrivals) =
     (case body (buf @ arr) of
        (Some d, _) \<Rightarrow> d
      | (None, buf') \<Rightarrow> read_loop body buf' arrivals)"

definition getRobustLidarDistance_ble :: "byte list \<Rightarrow> byte list list \<Rightarrow> int" where
  "getRobustLidarDistance_ble stale arrivals = read_loop read_packet_ble (flush stale) arrivals"

definition getRobustLidarDistance :: "byte list \<Rightarrow> byte list list \<Rightarrow> int" where
  "getRobustLidarDistance stale arrivals = read_loop read_packet (flush stale) arrivals"

text \<open>
  A well-formed frame: two sync bytes, six payload bytes, and the low byte of the sum of
  these eight as the ninth.
\<close>

definition frame_ok :: "byte list \<Rightarrow> bool" where
  "frame_ok f =
     (length f = 9 \<and> f ! 0 = 0x59 \<and> f ! 1 = 0x59 \<and>
      uint (f ! 8) = sum_list (map uint (take 8 f)) mod 256)"

definition frame_distance :: "byte list \<Rightarrow> int" where
  "frame_distance f = uint (f ! 2) + uint (f ! 3) * 256"

section \<open>Concrete scenarios\<close>

text \<open>
  The scenario of the specification: credential \<open>C1\<close> with permissions \<open>D1\<close>, enrolled for
  student \<open>S1\<close> and not expired, and its pending short token \<open>T1\<close>, issued at time 1000.
\<close>

definition entry_T1 :: short_token where
  "entry_T1 = \<lparr>t_enrollment_token = ''C1'', t_created_at = 1000, t_expires_at = 61000, t_used = 0\<rparr>"

definition user_C1 :: enrollment where
  "user_C1 = \<lparr>e_permissions = Some ''D1'', e_created_at = 0, e_expires_at = 1000000\<rparr>"

definition db0 :: db where
  "db0 = \<lparr>enrollments = [''C1'' \<mapsto> user_C1],
          identity_map = [(''S1'', ''C1'')],
          short_tokens = [''T1'' \<mapsto> entry_T1],
          rate_limits = Map.empty\<rparr>"

text \<open>The scenario after \<open>T1\<close> has been granted.\<close>

definition db0_granted :: db where
  "db0_granted = db0\<lparr>short_tokens := [''T1'' \<mapsto> entry_T1\<lparr>t_used := 1\<rparr>]\<rparr>"

text \<open>
  Credential \<open>C2\<close> with permissions \<open>ALL\<close> and expiry 1500; \<open>db2_issued\<close> is the database
  after a token request for it at time 1000 that drew the token \<open>T2\<close>.
\<close>

definition user_C2 :: enrollment where
  "user_C2 = \<lparr>e_permissions = Some ''ALL'', e_created_at = 0, e_expires_at = 1500\<rparr>"

definition db2 :: db where
  "db2 = \<lparr>enrollments = [''C2'' \<mapsto> user_C2],
          identity_map = [(''S2'', ''C2'')],
          short_tokens = Map.empty,
          rate_limits = Map.empty\<rparr>"

definition entry_T2 :: short_token where
  "entry_T2 = \<lparr>t_enrollment_token = ''C2'', t_created_at = 1000, t_expires_at = 61000, t_used = 0\<rparr>"

definition db2_issued :: db where
  "db2_issued = db2\<lparr>short_tokens := [''T2'' \<mapsto> entry_T2],
       rate_limits := [''C2'' \<mapsto> \<lparr>r_requests = [1000], r_suspended_until = 0\<rparr>]\<rparr>"

text \<open>The first scenario with three token requests of \<open>C1\<close> in the window.\<close>

definition db0_busy :: db where
  "db0_busy = db0\<lparr>rate_limits := [''C1'' \<mapsto> \<lparr>r_requests = [1000, 2000, 3000], r_suspended_until = 0\<rparr>]\<rparr>"

text \<open>The first scenario after student \<open>S1\<close> has been revoked.\<close>

definition db0_revoked :: db where
  "db0_revoked = db0\<lparr>enrollments := Map.empty, identity_map := []\<rparr>"

text \<open>
  The first scenario after an enroll call for the new credential \<open>C9\<close> under the student
  identifier \<open>S1\<close>, which is already mapped.
\<close>

definition user_C9 :: enrollment where
  "user_C9 = \<lparr>e_permissions = Some ''ALL'', e_created_at = 5000, e_expires_at = 10368005000\<rparr>"

definition db0_partial :: db where
  "db0_partial = db0\<lparr>enrollments := [''C1'' \<mapsto> user_C1, ''C9'' \<mapsto> user_C9]\<rparr>"

text \<open>A frame for the distance 50 whose ninth byte is \<open>0xFF\<close>; the checksum of its first eight bytes is \<open>0x61\<close>.\<close>

definition bad_frame :: "byte list" where
  "bad_frame = [0x59, 0x59, 0x32, 0x00, 0x64, 0x00, 0x10, 0x09, 0xFF]"




section \<open>Properties of POST /validate\<close>

lemma set_used_Some:
  "short_tokens st tok = Some entry \<Longrightarrow>
   set_used st tok u = st\<lparr>short_tokens := (short_tokens st)(tok \<mapsto> entry\<lparr>t_used := u\<rparr>)\<rparr>"
  by (simp add: set_used_def)







lemma validate_terminal:
  assumes "short_tokens st tok = Some entry" "t_used entry = 1 \<or> t_used entry = 2" "tok \<noteq> []"
  shows "validate st now (Some tok) rssi dist door =
     (if falsy door then (st, VBadRequest ''doorId required'')
      else if t_expires_at entry \<le> now then (delete_short_token st tok, VDenied ''expired'')
      else (st, VDenied (if t_used entry = 1 then ''already_used'' else ''already_denied'')))"
  using assms by (auto simp: validate_def falsy_def Let_def)

lemma validate_absent:
  assumes "short_tokens st tok = None" "tok \<noteq> []"
  shows "validate st now (Some tok) rssi dist door =
     (if falsy door then (st, VBadRequest ''doorId required'')
      else (st, VDenied ''unknown_or_expired''))"
  using assms by (auto simp: validate_def falsy_def Let_def)

lemma validate_granted_commits:
  assumes "snd (validate st now (Some tok) rssi dist door) = VGranted"
  shows "\<exists>entry. short_tokens st tok = Some entry \<and>
           fst (validate st now (Some tok) rssi dist door) =
             st\<lparr>short_tokens := (short_tokens st)(tok \<mapsto> entry\<lparr>t_used := 1\<rparr>)\<rparr>"
  using assms
  by (auto simp: validate_def falsy_def Let_def set_used_Some split: option.splits if_splits)

lemma validate_consumed:
  assumes "consumed st tok"
  shows "snd (validate st now (Some tok) rssi dist door) \<noteq> VGranted \<and>
         consumed (fst (validate st now (Some tok) rssi dist door)) tok"
  using assms
  by (auto simp: consumed_def validate_def falsy_def Let_def delete_short_token_def
      split: option.splits)

lemma snd_validate_seq_Cons:
  "snd (validate_seq st tok ((now, rssi, dist, door) # calls)) =
     snd (validate st now (Some tok) rssi dist door) #
     snd (validate_seq (fst (validate st now (Some tok) rssi dist door)) tok calls)"
  by (simp split: prod.splits)

lemma validate_seq_consumed:
  "consumed st tok \<Longrightarrow> VGranted \<notin> set (snd (validate_seq st tok calls))"
proof (induction calls arbitrary: st)
  case Nil
  then show ?case by simp
next
  case (Cons c calls)
  obtain now rssi dist door where c: "c = (now, rssi, dist, door)" by (cases c) auto
  obtain st' r where v: "validate st now (Some tok) rssi dist door = (st', r)" by fastforce
  from validate_consumed [OF Cons.prems, of now rssi dist door] v
  have "r \<noteq> VGranted" "consumed st' tok" by simp_all
  with Cons.IH [of st'] show ?case by (simp add: c v snd_validate_seq_Cons del: validate_seq.simps)
qed

lemma validate_seq_at_most_once:
  "length (filter (\<lambda>r. r = VGranted) (snd (validate_seq st tok calls))) \<le> 1"
proof (induction calls arbitrary: st)
  case Nil
  then show ?case by simp
next
  case (Cons c calls)
  obtain now rssi dist door where c: "c = (now, rssi, dist, door)" by (cases c) auto
  obtain st' r where v: "validate st now (Some tok) rssi dist door = (st', r)" by fastforce
  show ?case
  proof (cases "r = VGranted")
    case True
    with validate_granted_commits [of st now tok rssi dist door] v
    have "consumed st' tok" by (auto simp: consumed_def)
    then have "VGranted \<notin> set (snd (validate_seq st' tok calls))"
      by (rule validate_seq_consumed)
    then have "filter (\<lambda>r. r = VGranted) (snd (validate_seq st' tok calls)) = []"
      by (auto simp: filter_empty_conv)
    then show ?thesis by (simp add: c v True snd_validate_seq_Cons del: validate_seq.simps)
  next
    case False
    with Cons.IH [of st'] show ?thesis by (simp add: c v snd_validate_seq_Cons del: validate_seq.simps)
  qed
qed

lemma validate_keeps_terminal:
  assumes "short_tokens st tok = Some entry" "t_used entry = 1 \<or> t_used entry = 2"
  shows "short_tokens (fst (validate st now token rssi dist door)) tok = Some entry \<or>
         (short_tokens (fst (validate st now token rssi dist door)) tok = None \<and>
          token = Some tok \<and> t_expires_at entry \<le> now)"
  using assms
  by (auto simp: validate_def falsy_def Let_def delete_short_token_def set_used_def
      split: option.splits)


text \<open>
  Claim C1, amended. In any sequence of validate calls on one token at most one answers
  granted; a granting call stores used = 1. While the token is unexpired, a call on a
  token with used = 1 answers \<open>already_used\<close> and one with used = 2 answers
  \<open>already_denied\<close>, both leaving the database as it is; a call at or after the expiry
  answers \<open>expired\<close> and deletes the row, whatever its flag. No validate call changes
  the flag of a row holding 1 or 2: the row stays as it is, or is deleted by the expiry
  branch of a call on that token.
\<close>

theorem validate_at_most_once:
  "length (filter (\<lambda>r. r = VGranted) (snd (validate_seq st tok calls))) \<le> 1 \<and>
   (snd (validate st now (Some tok) rssi dist door) = VGranted \<longrightarrow>
      (\<exists>entry. short_tokens (fst (validate st now (Some tok) rssi dist door)) tok = Some entry \<and>
          t_used entry = 1)) \<and>
   (short_tokens st tok = Some entry \<and> tok \<noteq> [] \<and> \<not> falsy door \<and> now < t_expires_at entry \<longrightarrow>
      (t_used entry = 1 \<longrightarrow>
         validate st now (Some tok) rssi dist door = (st, VDenied ''already_used'')) \<and>
      (t_used entry = 2 \<longrightarrow>
         validate st now (Some tok) rssi dist door = (st, VDenied ''already_denied''))) \<and>
   (short_tokens st tok = Some entry \<and> tok \<noteq> [] \<and> \<not> falsy door \<and> t_expires_at entry \<le> now \<longrightarrow>
      validate st now (Some tok) rssi dist door = (delete_short_token st tok, VDenied ''expired'')) \<and>
   (short_tokens st tok = Some entry \<and> (t_used entry = 1 \<or> t_used entry = 2) \<longrightarrow>
      short_tokens (fst (validate st now token rssi dist door)) tok = Some entry \<or>
      (short_tokens (fst (validate st now token rssi dist door)) tok = None \<and>
       token = Some tok \<and> t_expires_at entry \<le> now))"
proof (intro conjI impI)
  show "length (filter (\<lambda>r. r = VGranted) (snd (validate_seq st tok calls))) \<le> 1"
    by (rule validate_seq_at_most_once)
next
  assume "snd (validate st now (Some tok) rssi dist door) = VGranted"
  from validate_granted_commits [OF this]
  show "\<exists>entry. short_tokens (fst (validate st now (Some tok) rssi dist door)) tok = Some entry \<and>
          t_used entry = 1"
    by auto
next
  assume "short_tokens st tok = Some entry \<and> tok \<noteq> [] \<and> \<not> falsy door \<and> now < t_expires_at entry"
    and "t_used entry = 1"
  then show "validate st now (Some tok) rssi dist door = (st, VDenied ''already_used'')"
    by (simp add: validate_terminal)
next
  assume "short_tokens st tok = Some entry \<and> tok \<noteq> [] \<and> \<not> falsy door \<and> now < t_expires_at entry"
    and "t_used entry = 2"
  then show "validate st now (Some tok) rssi dist door = (st, VDenied ''already_denied'')"
    by (simp add: validate_terminal)
next
  assume "short_tokens st tok = Some entry \<and> tok \<noteq> [] \<and> \<not> falsy door \<and> t_expires_at entry \<le> now"
  then show "validate st now (Some tok) rssi dist door =
      (delete_short_token st tok, VDenied ''expired'')"
    by (auto simp: validate_def falsy_def Let_def)
next
  assume "short_tokens st tok = Some entry \<and> (t_used entry = 1 \<or> t_used entry = 2)"
  then show "short_tokens (fst (validate st now token rssi dist door)) tok = Some entry \<or>
      (short_tokens (fst (validate st now token rssi dist door)) tok = None \<and>
       token = Some tok \<and> t_expires_at entry \<le> now)"
    using validate_keeps_terminal by blast
qed


lemma validate_db0: "validate db0 2000 (Some ''T1'') (Some (- 60)) (Some 50) (Some ''D1'') = (db0_granted, VGranted)"
  by (simp add: validate_def db0_def db0_granted_def entry_T1_def user_C1_def falsy_def
      set_used_def RSSI_THRESHOLD_def DISTANCE_THRESHOLD_def)

theorem validate_at_most_once_witness:
  "snd (validate_seq db0 ''T1''
         [(2000, Some (- 60), Some 50, Some ''D1''), (3000, Some (- 60), Some 50, Some ''D1'')])
     = [VGranted, VDenied ''already_used''] \<and>
   short_tokens db0_granted ''T1'' = Some (entry_T1\<lparr>t_used := 1\<rparr>) \<and>
   validate db0_granted 3000 (Some ''T1'') (Some (- 60)) (Some 50) (Some ''D1'') =
     (db0_granted, VDenied ''already_used'')"
proof -
  have a: "short_tokens db0_granted ''T1'' = Some (entry_T1\<lparr>t_used := 1\<rparr>)"
    by (simp add: db0_granted_def)
  have b: "''T1'' \<noteq> []" "\<not> falsy (Some ''D1'')" "3000 < t_expires_at (entry_T1\<lparr>t_used := 1\<rparr>)"
    "t_used (entry_T1\<lparr>t_used := 1\<rparr>) = 1"
    by (simp_all add: falsy_def entry_T1_def)
  from validate_at_most_once [of db0_granted "''T1''" "[]" 3000 "Some (- 60)" "Some 50"
      "Some ''D1''" "entry_T1\<lparr>t_used := 1\<rparr>" None] a b
  have c: "validate db0_granted 3000 (Some ''T1'') (Some (- 60)) (Some 50) (Some ''D1'') =
     (db0_granted, VDenied ''already_used'')"
    by blast
  show ?thesis using a c by (simp add: validate_db0)
qed

text \<open>
  The claim as written fails after the expiry: the granted token \<open>T1\<close> (expiry 61000),
  validated again at time 61000, is answered \<open>expired\<close>, not \<open>already_used\<close>, and its
  row is deleted.
\<close>

theorem validate_after_expiry_counterexample:
  "validate db0 2000 (Some ''T1'') (Some (- 60)) (Some 50) (Some ''D1'') = (db0_granted, VGranted) \<and>
   t_used (the (short_tokens db0_granted ''T1'')) = 1 \<and>
   validate db0_granted 61000 (Some ''T1'') (Some (- 60)) (Some 50) (Some ''D1'') =
     (db0_granted\<lparr>short_tokens := Map.empty\<rparr>, VDenied ''expired'') \<and>
   VDenied ''expired'' \<noteq> VDenied ''already_used''"
  by (simp add: validate_db0)
    (simp add: validate_def db0_def db0_granted_def entry_T1_def falsy_def delete_short_token_def)

section \<open>Expired credentials\<close>

lemma validate_ignores_enrollment_expiry:
  assumes "enrollments st e = Some user"
  shows "snd (validate (st\<lparr>enrollments := (enrollments st)(e \<mapsto> user\<lparr>e_expires_at := x\<rparr>)\<rparr>)
                now token rssi dist door) =
         snd (validate st now token rssi dist door)"
  using assms
  by (auto simp: validate_def falsy_def Let_def set_used_def delete_short_token_def
      split: option.splits)

text \<open>
  Claim C2, amended. A token request for a credential whose expiry lies strictly before
  the current time is answered \<open>enrollment_expired\<close> and leaves the database as it is:
  no short token is created and no rate-limit row is written. The validate handler does
  not read the credential's expiry: its answer is the same whatever expiry the owning
  credential's row carries.
\<close>

theorem expired_enrollment_issuance_denied:
  "(enrollments st e = Some user \<and> e \<noteq> [] \<and> e_expires_at user < now \<longrightarrow>
      request_token st now tokenStr (Some e) = (st, TForbidden ''enrollment_expired'')) \<and>
   (enrollments st e = Some user \<longrightarrow>
      snd (validate (st\<lparr>enrollments := (enrollments st)(e \<mapsto> user\<lparr>e_expires_at := x\<rparr>)\<rparr>)
             now token rssi dist door) =
      snd (validate st now token rssi dist door))"
  using validate_ignores_enrollment_expiry
  by (auto simp: request_token_def falsy_def)

theorem expired_enrollment_issuance_denied_witness:
  "enrollments db2 ''C2'' = Some user_C2 \<and> e_expires_at user_C2 < 90000000 \<and>
   request_token db2 90000000 ''T2'' (Some ''C2'') = (db2, TForbidden ''enrollment_expired'')"
proof -
  have a: "enrollments db2 ''C2'' = Some user_C2" by (simp add: db2_def)
  have b: "''C2'' \<noteq> []" "e_expires_at user_C2 < 90000000" by (simp_all add: user_C2_def)
  from expired_enrollment_issuance_denied [of db2 "''C2''" user_C2 90000000 "''T2''"] a b
  show ?thesis by blast
qed

text \<open>
  The claim as written fails for validate: \<open>C2\<close> expires at 1500; the token \<open>T2\<close> issued to
  it at time 1000 is granted at time 2000, while the expired row is still stored.
\<close>

theorem expired_enrollment_grants_counterexample:
  "enrollments db2 ''C2'' = Some user_C2 \<and> e_expires_at user_C2 = 1500 \<and>
   request_token db2 1000 ''T2'' (Some ''C2'') = (db2_issued, TIssued ''T2'' 61000) \<and>
   enrollments db2_issued ''C2'' = Some user_C2 \<and> e_expires_at user_C2 \<le> 2000 \<and>
   snd (validate db2_issued 2000 (Some ''T2'') (Some (- 60)) (Some 50) (Some ''D1'')) = VGranted"
  by (simp add: db2_def db2_issued_def user_C2_def entry_T2_def request_token_def validate_def Let_def
      falsy_def set_used_def WINDOW_MS_def MAX_REQUESTS_def SHORT_TOKEN_TTL_MS_def
      RSSI_THRESHOLD_def DISTANCE_THRESHOLD_def)

section \<open>Expired short tokens\<close>

lemma check_status_absent:
  "short_tokens st tok = None \<Longrightarrow> tok \<noteq> [] \<Longrightarrow> check_status st (Some tok) = SStatus ''expired''"
  by (simp add: check_status_def falsy_def)

text \<open>
  Claim C6, amended. A validate call on a stored token at or after its expiry answers
  \<open>expired\<close> and deletes the row; from then on a status poll answers \<open>expired\<close> and a
  further validate call answers \<open>unknown_or_expired\<close>. The sweep at or after the expiry
  removes the row as well. The status poll itself reads only the \<open>used\<close> flag: as long
  as the row of a pending token is stored, the poll answers \<open>pending\<close>, whatever the
  expiry.
\<close>

theorem expired_token_purged:
  "(short_tokens st tok = Some entry \<and> t_expires_at entry \<le> now \<and> tok \<noteq> [] \<and> door \<noteq> [] \<longrightarrow>
      validate st now (Some tok) rssi dist (Some door) =
        (delete_short_token st tok, VDenied ''expired'') \<and>
      short_tokens (delete_short_token st tok) tok = None \<and>
      check_status (delete_short_token st tok) (Some tok) = SStatus ''expired'' \<and>
      validate (delete_short_token st tok) now' (Some tok) rssi' dist' (Some door) =
        (delete_short_token st tok, VDenied ''unknown_or_expired'')) \<and>
   (short_tokens st tok = Some entry \<and> t_expires_at entry \<le> now \<and> tok \<noteq> [] \<longrightarrow>
      check_status (cleanupExpiredTokens st now) (Some tok) = SStatus ''expired'') \<and>
   (short_tokens st tok = Some entry \<and> t_used entry = 0 \<and> tok \<noteq> [] \<longrightarrow>
      check_status st (Some tok) = SStatus ''pending'')"
  by (auto simp: validate_def falsy_def Let_def delete_short_token_def check_status_def
      cleanupExpiredTokens_def)

theorem expired_token_purged_witness:
  "short_tokens db0 ''T1'' = Some entry_T1 \<and> t_expires_at entry_T1 \<le> 70000 \<and>
   validate db0 70000 (Some ''T1'') None None (Some ''D1'') =
     (delete_short_token db0 ''T1'', VDenied ''expired'') \<and>
   check_status (delete_short_token db0 ''T1'') (Some ''T1'') = SStatus ''expired''"
proof -
  have a: "short_tokens db0 ''T1'' = Some entry_T1" by (simp add: db0_def)
  have b: "t_expires_at entry_T1 \<le> 70000" "''T1'' \<noteq> []" "''D1'' \<noteq> []"
    by (simp_all add: entry_T1_def)
  from expired_token_purged [of db0 "''T1''" entry_T1 70000 "''D1''" None None 70000 None None] a b
  show ?thesis by blast
qed

text \<open>
  The claim as written fails for the status poll: \<open>T1\<close> expires at 61000; as long as no
  validate call or sweep has removed the row, a poll at time 70000 reads the same row
  and answers \<open>pending\<close>.
\<close>

theorem expired_token_poll_counterexample:
  "short_tokens db0 ''T1'' = Some entry_T1 \<and> t_used entry_T1 = 0 \<and>
   t_expires_at entry_T1 \<le> 70000 \<and>
   check_status db0 (Some ''T1'') = SStatus ''pending''"
  by (simp add: db0_def entry_T1_def check_status_def falsy_def)

section \<open>Rate limiting\<close>

text \<open>
  Claim C7. For a stored, unexpired credential, with \<open>w\<close> its window (empty and
  unsuspended when no row is stored) and \<open>pruned\<close> the timestamps of the window less
  than 180000 ms old: while \<open>now\<close> is before \<open>suspended_until\<close> the request is answered
  \<open>rate_limited\<close> and nothing is written; otherwise, when \<open>pruned\<close> holds 3 or more
  timestamps, the window is stored empty with suspension until \<open>now + 180000\<close> and the
  request is answered \<open>rate_limited\<close>; otherwise the window is stored as \<open>pruned\<close>
  followed by \<open>now\<close>, with the suspension marker 0, and the short token is issued,
  pending, expiring at \<open>now + 60000\<close> (when the random token drawn is already stored,
  the insert fails and the answer is the 500 error, the window having been written).
\<close>

theorem request_token_rate_limit:
  assumes user: "enrollments st e = Some user" "e \<noteq> []" "\<not> e_expires_at user < now"
    and w: "w = (case rate_limits st e of
                   None \<Rightarrow> \<lparr>r_requests = [], r_suspended_until = 0\<rparr> | Some row \<Rightarrow> row)"
    and pruned: "pruned = filter (\<lambda>ts. now - ts < 180000) (r_requests w)"
  shows "(now < r_suspended_until w \<longrightarrow>
            request_token st now tokenStr (Some e) = (st, TRateLimited (r_suspended_until w))) \<and>
         (\<not> now < r_suspended_until w \<and> 3 \<le> length pruned \<longrightarrow>
            request_token st now tokenStr (Some e) =
              (st\<lparr>rate_limits := (rate_limits st)(e \<mapsto>
                    \<lparr>r_requests = [], r_suspended_until = now + 180000\<rparr>)\<rparr>,
               TRateLimited (now + 180000))) \<and>
         (\<not> now < r_suspended_until w \<and> length pruned < 3 \<and> short_tokens st tokenStr = None \<longrightarrow>
            request_token st now tokenStr (Some e) =
              (st\<lparr>rate_limits := (rate_limits st)(e \<mapsto>
                    \<lparr>r_requests = pruned @ [now], r_suspended_until = 0\<rparr>),
                  short_tokens := (short_tokens st)(tokenStr \<mapsto>
                    \<lparr>t_enrollment_token = e, t_created_at = now, t_expires_at = now + 60000,
                     t_used = 0\<rparr>)\<rparr>,
               TIssued tokenStr (now + 60000))) \<and>
         (\<not> now < r_suspended_until w \<and> length pruned < 3 \<and> short_tokens st tokenStr \<noteq> None \<longrightarrow>
            request_token st now tokenStr (Some e) =
              (st\<lparr>rate_limits := (rate_limits st)(e \<mapsto>
                    \<lparr>r_requests = pruned @ [now], r_suspended_until = 0\<rparr>)\<rparr>,
               TInternalError))"
proof -
  have p: "filter (\<lambda>ts. now - 180000 < ts) (r_requests w) = pruned"
    unfolding pruned by (rule filter_cong) auto
  have w': "(case rate_limits st e of
               None \<Rightarrow> \<lparr>r_requests = [], r_suspended_until = 0\<rparr> | Some row \<Rightarrow> row) = w"
    by (simp add: w)
  show ?thesis
    using user
    by (auto simp: request_token_def falsy_def Let_def w' p
        MAX_REQUESTS_def WINDOW_MS_def SHORT_TOKEN_TTL_MS_def)
qed

theorem request_token_rate_limit_witness:
  "enrollments db0_busy ''C1'' = Some user_C1 \<and> \<not> e_expires_at user_C1 < 4000 \<and>
   request_token db0_busy 4000 ''T9'' (Some ''C1'') =
     (db0_busy\<lparr>rate_limits := [''C1'' \<mapsto> \<lparr>r_requests = [], r_suspended_until = 184000\<rparr>]\<rparr>,
      TRateLimited 184000)"
proof -
  let ?w = "\<lparr>r_requests = [1000, 2000, 3000], r_suspended_until = 0\<rparr>"
  have a: "enrollments db0_busy ''C1'' = Some user_C1" "''C1'' \<noteq> []"
    "\<not> e_expires_at user_C1 < 4000"
    by (simp_all add: db0_busy_def db0_def user_C1_def)
  have b: "?w = (case rate_limits db0_busy ''C1'' of
                   None \<Rightarrow> \<lparr>r_requests = [], r_suspended_until = 0\<rparr> | Some row \<Rightarrow> row)"
    by (simp add: db0_busy_def)
  have c: "[1000, 2000, 3000] = filter (\<lambda>ts. 4000 - ts < 180000) (r_requests ?w)"
    by simp
  from request_token_rate_limit [OF a b c, of "''T9''"] a
  show ?thesis by (simp add: db0_busy_def)
qed

section \<open>Revocation\<close>

text \<open>
  Claim C8. Revocation never changes the \<open>short_tokens\<close> table (nor the rate-limit
  table), and a refused call changes nothing. A successful call for student \<open>sid\<close>
  mapped to credential \<open>e\<close> deletes the row of \<open>e\<close> from \<open>enrollments\<close> and the row of
  \<open>sid\<close> from \<open>identity_map\<close>, and nothing else. Every pending, unexpired short token
  of \<open>e\<close> is still stored; validating it then answers \<open>access_revoked\<close> and stores
  used = 2.
\<close>

theorem revoke_frame:
  "short_tokens (fst (revoke_enrollment secret st studentId adminSecret)) = short_tokens st \<and>
   rate_limits (fst (revoke_enrollment secret st studentId adminSecret)) = rate_limits st \<and>
   (snd (revoke_enrollment secret st studentId adminSecret) \<noteq> AOk \<longrightarrow>
      fst (revoke_enrollment secret st studentId adminSecret) = st) \<and>
   (adminSecret = secret \<and> sid \<noteq> [] \<and> map_of (identity_map st) sid = Some e \<longrightarrow>
      revoke_enrollment secret st (Some sid) adminSecret =
        (st\<lparr>enrollments := (enrollments st)(e := None),
            identity_map := filter (\<lambda>row. fst row \<noteq> sid) (identity_map st)\<rparr>, AOk) \<and>
      (\<forall>tok entry now rssi dist door.
         short_tokens st tok = Some entry \<and> t_enrollment_token entry = e \<and> t_used entry = 0 \<and>
         now < t_expires_at entry \<and> tok \<noteq> [] \<and> door \<noteq> [] \<longrightarrow>
         validate (fst (revoke_enrollment secret st (Some sid) adminSecret)) now (Some tok) rssi dist
             (Some door) =
           (set_used (fst (revoke_enrollment secret st (Some sid) adminSecret)) tok 2,
            VDenied ''access_revoked'') \<and>
         short_tokens (set_used (fst (revoke_enrollment secret st (Some sid) adminSecret)) tok 2) tok
           = Some (entry\<lparr>t_used := 2\<rparr>)))"
  by (auto simp: revoke_enrollment_def falsy_def Let_def validate_def set_used_def
      split: option.splits)
theorem revoke_frame_witness:
  "map_of (identity_map db0) ''S1'' = Some ''C1'' \<and>
   revoke_enrollment (Some ''secret'') db0 (Some ''S1'') (Some ''secret'') = (db0_revoked, AOk) \<and>
   short_tokens db0_revoked = short_tokens db0 \<and>
   validate db0_revoked 2000 (Some ''T1'') (Some (- 60)) (Some 50) (Some ''D1'') =
     (set_used db0_revoked ''T1'' 2, VDenied ''access_revoked'')"
proof -
  have a: "map_of (identity_map db0) ''S1'' = Some ''C1''" "''S1'' \<noteq> []"
    by (simp_all add: db0_def)
  have r: "(db0\<lparr>enrollments := (enrollments db0)(''C1'' := None),
            identity_map := filter (\<lambda>row. fst row \<noteq> ''S1'') (identity_map db0)\<rparr>) = db0_revoked"
    by (simp add: db0_def db0_revoked_def)
  have b: "short_tokens db0 ''T1'' = Some entry_T1 \<and> t_enrollment_token entry_T1 = ''C1'' \<and>
     t_used entry_T1 = 0 \<and> 2000 < t_expires_at entry_T1 \<and> ''T1'' \<noteq> [] \<and> ''D1'' \<noteq> []"
    by (simp add: db0_def entry_T1_def)
  note t = revoke_frame [of "Some ''secret''" db0 "Some ''S1''" "Some ''secret''" "''S1''" "''C1''"]
  from t a r have c: "revoke_enrollment (Some ''secret'') db0 (Some ''S1'') (Some ''secret'') = (db0_revoked, AOk)"
    by simp
  from t a b c have "validate db0_revoked 2000 (Some ''T1'') (Some (- 60)) (Some 50) (Some ''D1'') =
     (set_used db0_revoked ''T1'' 2, VDenied ''access_revoked'')"
    by (metis fst_conv)
  with a c show ?thesis by (simp add: db0_revoked_def)
qed

section \<open>Enrollment\<close>

lemma enroll_duplicate_key:
  "enrollments st e \<noteq> None \<Longrightarrow> adminSecret = secret \<Longrightarrow> e \<noteq> [] \<Longrightarrow> sid \<noteq> [] \<Longrightarrow>
   enroll secret st now (Some e) (Some sid) permissions adminSecret expiresAt =
     (st, AError 409 ''token or studentId already exists'')"
  by (auto simp: enroll_def falsy_def Let_def)

text \<open>
  Claim C5. The two inserts are not atomic. Enrolling the new credential \<open>C9\<close> under the
  student identifier \<open>S1\<close>, which \<open>identity_map\<close> already holds, is answered 409, yet the
  credential row of \<open>C9\<close> stays in \<open>enrollments\<close> with no row in \<open>identity_map\<close>, and a
  token request for \<open>C9\<close> is then served.
\<close>

theorem enroll_partial_enrollment:
  "enroll (Some ''secret'') db0 5000 (Some ''C9'') (Some ''S1'') None (Some ''secret'') None =
     (db0_partial, AError 409 ''token or studentId already exists'') \<and>
   enrollments db0_partial ''C9'' = Some user_C9 \<and>
   ''C9'' \<notin> snd ` set (identity_map db0_partial) \<and>
   snd (request_token db0_partial 6000 ''T9'' (Some ''C9'')) = TIssued ''T9'' 66000"
  by (simp add: enroll_def db0_def db0_partial_def user_C9_def user_C1_def falsy_def Let_def
      request_token_def WINDOW_MS_def MAX_REQUESTS_def SHORT_TOKEN_TTL_MS_def)

section \<open>Interleaved validation\<close>

text \<open>Run without interruption, the three steps of a task are the handler.\<close>

lemma vstep_sequential:
  "run2 now st (VStart token rssi dist door) b [True, True, True] =
     (fst (validate st now token rssi dist door), VDone (snd (validate st now token rssi dist door)), b)"
  by (auto simp: validate_def Let_def set_used_def delete_short_token_def split: option.splits)

text \<open>
  Claim C9. Two validate requests for the pending token \<open>T1\<close>, resumed in turn by the
  event loop: both read the row with used = 0 before either writes, both run the
  unconditional update to used = 1, and both answer granted.
\<close>

theorem validate_double_grant:
  "run2 2000 db0
     (VStart (Some ''T1'') (Some (- 60)) (Some 50) (Some ''D1''))
     (VStart (Some ''T1'') (Some (- 60)) (Some 50) (Some ''D1''))
     [True, False, True, False, True, False] =
   (db0_granted, VDone VGranted, VDone VGranted)"
  by (simp add: db0_def db0_granted_def entry_T1_def user_C1_def falsy_def set_used_def Let_def
      RSSI_THRESHOLD_def DISTANCE_THRESHOLD_def)

section \<open>The frame decoder\<close>

lemma read_packet_ble_range:
  "read_packet_ble buf = (Some d, buf') \<Longrightarrow> 0 < d \<and> d < 1200"
  by (auto simp: read_packet_ble_def Let_def split: if_splits)

lemma read_packet_range:
  "read_packet buf = (Some d, buf') \<Longrightarrow> 0 < d \<and> d < 1200"
  by (auto simp: read_packet_def Let_def split: if_splits)

lemma read_loop_range:
  assumes "\<And>b d b'. body b = (Some d, b') \<Longrightarrow> 0 < d \<and> d < 1200"
  shows "read_loop body buf arrivals = 999 \<or>
         (0 < read_loop body buf arrivals \<and> read_loop body buf arrivals < 1200)"
proof (induction arrivals arbitrary: buf)
  case Nil
  then show ?case by (simp add: LIDAR_TIMEOUT_def)
next
  case (Cons arr arrivals)
  obtain r b' where b: "body (buf @ arr) = (r, b')" by fastforce
  show ?case
  proof (cases r)
    case None
    with b Cons.IH [of b'] show ?thesis by simp
  next
    case (Some d)
    with b assms [of "buf @ arr" d b'] show ?thesis by simp
  qed
qed

lemma validate_sentinel_denied:
  "snd (validate st now token rssi (Some 999) door) \<noteq> VGranted"
  by (auto simp: validate_def falsy_def Let_def DISTANCE_THRESHOLD_def split: option.splits)

text \<open>
  Claim C10. Whatever was buffered and whatever arrives, each of the two decoders returns
  999 or a value strictly between 0 and 1200, and returns 999 when its time budget allows
  no pass. 999 is above the validator's distance threshold, so a validate call carrying
  the value 999 as distance is never granted, in any database state and for any token,
  door and RSSI.
\<close>

theorem lidar_fail_closed:
  "(getRobustLidarDistance stale arrivals = 999 \<or>
      (0 < getRobustLidarDistance stale arrivals \<and> getRobustLidarDistance stale arrivals < 1200)) \<and>
   (getRobustLidarDistance_ble stale arrivals = 999 \<or>
      (0 < getRobustLidarDistance_ble stale arrivals \<and>
       getRobustLidarDistance_ble stale arrivals < 1200)) \<and>
   getRobustLidarDistance stale [] = 999 \<and>
   getRobustLidarDistance_ble stale [] = 999 \<and>
   DISTANCE_THRESHOLD < 999 \<and>
   snd (validate st now token rssi (Some 999) door) \<noteq> VGranted \<and>
   (getRobustLidarDistance stale arrivals = 999 \<longrightarrow>
      snd (validate st now token rssi (Some (getRobustLidarDistance stale arrivals)) door) \<noteq> VGranted) \<and>
   (getRobustLidarDistance_ble stale arrivals = 999 \<longrightarrow>
      snd (validate st now token rssi (Some (getRobustLidarDistance_ble stale arrivals)) door)
        \<noteq> VGranted)"
  using read_loop_range [of read_packet "flush stale" arrivals, OF read_packet_range]
    read_loop_range [of read_packet_ble "flush stale" arrivals, OF read_packet_ble_range]
    validate_sentinel_denied [of st now token rssi door]
  by (simp add: getRobustLidarDistance_def getRobustLidarDistance_ble_def LIDAR_TIMEOUT_def
        DISTANCE_THRESHOLD_def)

theorem lidar_fail_closed_witness:
  "getRobustLidarDistance [] [[0x59, 0x00, 0x59]] = 999 \<and>
   snd (validate db0 2000 (Some ''T1'') (Some (- 60))
          (Some (getRobustLidarDistance [] [[0x59, 0x00, 0x59]])) (Some ''D1'')) \<noteq> VGranted"
proof -
  have a: "getRobustLidarDistance [] [[0x59, 0x00, 0x59]] = 999"
    by (simp add: getRobustLidarDistance_def read_packet_def LIDAR_TIMEOUT_def)
  from lidar_fail_closed [of "[]" "[[0x59, 0x00, 0x59]]" db0 2000 "Some ''T1''" "Some (- 60)"
      "Some ''D1''"] a
  show ?thesis by blast
qed

lemma and_FF: "(x::int) AND 0xFF = x mod 256"
proof -
  have "x AND mask 8 = x mod 2 ^ 8"
    by (simp only: take_bit_eq_mask [symmetric] take_bit_eq_mod)
  moreover have "(mask 8 :: int) = 0xFF" by (simp add: mask_eq_exp_minus_1)
  ultimately show ?thesis by simp
qed

lemma length_nine:
  "length (xs :: 'a list) = 9 \<Longrightarrow> \<exists>a0 a1 a2 a3 a4 a5 a6 a7 a8. xs = [a0, a1, a2, a3, a4, a5, a6, a7, a8]"
  by (auto simp: eval_nat_numeral length_Suc_conv)

lemma nine_bytes:
  assumes "9 \<le> length (b :: byte list)"
  obtains b0 b1 b2 b3 b4 b5 b6 b7 b8 rest
  where "b = b0 # b1 # b2 # b3 # b4 # b5 # b6 # b7 # b8 # rest"
proof -
  from assms have "length (take 9 b) = 9" by simp
  from length_nine [OF this] obtain b0 b1 b2 b3 b4 b5 b6 b7 b8
    where "take 9 b = [b0, b1, b2, b3, b4, b5, b6, b7, b8]"
    by blast
  then have "b = b0 # b1 # b2 # b3 # b4 # b5 # b6 # b7 # b8 # drop 9 b"
    by (metis append_Cons append_Nil append_take_drop_id)
  then show ?thesis by (rule that)
qed

lemma read_packet_ble_Some:
  assumes "read_packet_ble b = (Some d, b')"
  shows "9 \<le> length b \<and> frame_ok (take 9 b) \<and> d = frame_distance (take 9 b) \<and> b' = drop 9 b"
proof -
  from assms have len: "9 \<le> length b"
    by (auto simp: read_packet_ble_def split: if_splits)
  then obtain b0 b1 b2 b3 b4 b5 b6 b7 b8 rest
    where b: "b = b0 # b1 # b2 # b3 # b4 # b5 # b6 # b7 # b8 # rest"
    by (rule nine_bytes)
  from assms show ?thesis
    unfolding b
    by (auto simp: read_packet_ble_def frame_ok_def frame_distance_def Let_def and_FF
        add.assoc split: if_splits)
qed


lemma read_packet_ble_None:
  "read_packet_ble b = (None, b') \<Longrightarrow> \<exists>k. b' = drop k b"
  by (auto simp: read_packet_ble_def Let_def split: if_splits intro: exI [of _ 0])

lemma read_loop_ble_sound:
  assumes "read_loop read_packet_ble buf arrivals \<noteq> 999"
  shows "\<exists>pre f post. buf @ concat arrivals = pre @ f @ post \<and> frame_ok f \<and>
           read_loop read_packet_ble buf arrivals = frame_distance f"
  using assms
proof (induction arrivals arbitrary: buf)
  case Nil
  then show ?case by (simp add: LIDAR_TIMEOUT_def)
next
  case (Cons arr arrivals)
  obtain r b' where b: "read_packet_ble (buf @ arr) = (r, b')" by fastforce
  show ?case
  proof (cases r)
    case None
    with b Cons.prems have "read_loop read_packet_ble b' arrivals \<noteq> 999" by simp
    from Cons.IH [OF this] obtain pre f post
      where f: "b' @ concat arrivals = pre @ f @ post" "frame_ok f"
        "read_loop read_packet_ble b' arrivals = frame_distance f"
      by blast
    from b None obtain k where k: "b' = drop k (buf @ arr)"
      using read_packet_ble_None by blast
    have "(buf @ arr) @ concat arrivals = (take k (buf @ arr) @ b') @ concat arrivals"
      unfolding k append_take_drop_id ..
    then have "buf @ concat (arr # arrivals) = take k (buf @ arr) @ b' @ concat arrivals"
      by (simp del: take_append drop_append)
    also have "\<dots> = (take k (buf @ arr) @ pre) @ f @ post"
      by (simp add: f)
    finally have "buf @ concat (arr # arrivals) = (take k (buf @ arr) @ pre) @ f @ post" .
    moreover have "read_loop read_packet_ble buf (arr # arrivals) = frame_distance f"
      using b None f by simp
    ultimately show ?thesis using f(2) by blast
  next
    case (Some d)
    with b have s: "9 \<le> length (buf @ arr)" "frame_ok (take 9 (buf @ arr))"
      "d = frame_distance (take 9 (buf @ arr))"
      using read_packet_ble_Some by blast+
    have "(buf @ arr) @ concat arrivals =
        (take 9 (buf @ arr) @ drop 9 (buf @ arr)) @ concat arrivals"
      unfolding append_take_drop_id ..
    then have "buf @ concat (arr # arrivals) =
        [] @ take 9 (buf @ arr) @ (drop 9 (buf @ arr) @ concat arrivals)"
      by (simp del: take_append drop_append)
    moreover have "read_loop read_packet_ble buf (arr # arrivals) = d"
      using b Some by simp
    ultimately show ?thesis using s by blast
  qed
qed

text \<open>
  The decoder of the BLE controller verifies the checksum: a value other than 999 is the
  distance of a well-formed frame occurring in the stream received after the flush, and
  a stream in which no well-formed frame occurs gives 999.
\<close>

lemma ble_decoder_checksum:
  "(getRobustLidarDistance_ble stale arrivals \<noteq> 999 \<longrightarrow>
      (\<exists>pre f post. concat arrivals = pre @ f @ post \<and> frame_ok f \<and>
         getRobustLidarDistance_ble stale arrivals = frame_distance f)) \<and>
   ((\<forall>pre f post. concat arrivals = pre @ f @ post \<longrightarrow> \<not> frame_ok f) \<longrightarrow>
      getRobustLidarDistance_ble stale arrivals = 999)"
proof -
  have fl: "flush stale = []" by (induction stale) simp_all
  show ?thesis
    using read_loop_ble_sound [of "[]" arrivals]
    by (auto simp: getRobustLidarDistance_ble_def fl)
qed

text \<open>
  Claim C3. The decoder of firmware/main.ino does not verify the checksum: on a stream
  of two copies of \<open>bad_frame\<close>, which contains no well-formed frame, it returns the
  distance 50, where the decoder of the BLE controller returns the sentinel.
\<close>

theorem lidar_checksum_not_verified:
  "\<not> frame_ok bad_frame \<and>
   getRobustLidarDistance [] [bad_frame, bad_frame] = 50 \<and>
   getRobustLidarDistance_ble [] [bad_frame, bad_frame] = 999"
  by (simp add: frame_ok_def bad_frame_def getRobustLidarDistance_def getRobustLidarDistance_ble_def
      read_packet_def read_packet_ble_def LIDAR_TIMEOUT_def)

end
